theory Spec2Isabelle
  imports Main "HOL-Library.Multiset"
begin

section \<open>Strings\<close>

text \<open>
  A Python \<open>str\<close> is a sequence of Unicode code points, and \<open>len\<close>, slicing, \<open>strip\<close>
  and the \<open>re\<close> module all count code points. A string is therefore modelled as a list of
  code points (natural numbers), not as a list of bytes. \<open>py\<close> turns an ASCII literal into
  such a string.
\<close>

type_synonym str = "nat list"

definition py :: "string \<Rightarrow> str" where
  "py s = map of_char s"

text \<open>
  The character class \<open>[\\/:*?\"<>|]\<close> of \<open>safe_filename\<close>:
  backslash, slash, colon, asterisk, question mark, double quote, less-than, greater-than
  and vertical bar.
\<close>

definition illegal :: "nat \<Rightarrow> bool" where
  "illegal c \<longleftrightarrow> c \<in> {92, 47, 58, 42, 63, 34, 60, 62, 124}"

text \<open>
  The class \<open>\s\<close> of a \<open>str\<close> pattern and the characters removed by \<open>str.strip()\<close>
  are the same set, the code points for which \<open>str.isspace\<close> holds: the ASCII
  controls 9 to 13 and 28 to 31, the space, and the Unicode separators.
\<close>

definition isspace :: "nat \<Rightarrow> bool" where
  "isspace c \<longleftrightarrow>
     (9 \<le> c \<and> c \<le> 13) \<or> (28 \<le> c \<and> c \<le> 32) \<or> c = 133 \<or> c = 160 \<or> c = 5760 \<or>
     (8192 \<le> c \<and> c \<le> 8202) \<or> c = 8232 \<or> c = 8233 \<or> c = 8239 \<or> c = 8287 \<or>
     c = 12288"

text \<open>
  \<open>re.sub(r"[...]+", repl, name)\<close>: scanning from the left, every maximal run of
  characters of the class is replaced by one copy of \<open>repl\<close>.
\<close>

function re_sub_runs :: "(nat \<Rightarrow> bool) \<Rightarrow> str \<Rightarrow> str \<Rightarrow> str" where
  "re_sub_runs P repl [] = []"
| "re_sub_runs P repl (c # cs) =
     (if P c then repl @ re_sub_runs P repl (dropWhile P cs)
      else c # re_sub_runs P repl cs)"
  by pat_completeness auto
termination
  by (relation "measure (\<lambda>(P, repl, s). length s)")
     (auto simp: length_dropWhile_le less_Suc_eq_le)

definition lstrip :: "str \<Rightarrow> str" where
  "lstrip s = dropWhile isspace s"

definition rstrip :: "str \<Rightarrow> str" where
  "rstrip s = rev (dropWhile isspace (rev s))"

definition strip :: "str \<Rightarrow> str" where
  "strip s = rstrip (lstrip s)"

text \<open>\<open>sep.join(xs)\<close>.\<close>

fun join :: "str \<Rightarrow> str list \<Rightarrow> str" where
  "join sep [] = []"
| "join sep [x] = x"
| "join sep (x # y # ys) = x @ sep @ join sep (y # ys)"

section \<open>Utilities\<close>

text \<open>
  \<open>safe_filename\<close>: illegal characters become underscores (one per run), whitespace
  runs become one space, the ends are stripped, the name is cut to 150 characters and
  stripped again on the right.
\<close>

definition safe_filename :: "str \<Rightarrow> str" where
  "safe_filename name =
     (let name1 = re_sub_runs illegal (py ''_'') name;
          name2 = strip (re_sub_runs isspace (py '' '') name1)
      in rstrip (take 150 name2))"

section \<open>Data model\<close>

text \<open>
  Exceptions are values. Every constructor stands for an instance of a subclass of
  \<open>Exception\<close> and carries \<open>str(e)\<close>, the text an f-string prints for it. The three
  classes of the \<open>wikipedia\<close> library that \<open>fetch_page_references\<close> names are
  siblings below \<open>WikipediaException\<close>; \<open>OSError\<close> is what writing a file raises,
  \<open>ValueError\<close> what an executor raises for a bad pool size, \<open>UnicodeEncodeError\<close> what
  \<open>print\<close> raises for a character the standard output cannot encode, and
  \<open>OtherException\<close> is any other subclass of \<open>Exception\<close>. \<open>KeyboardInterrupt\<close> and \<open>SystemExit\<close>,
  which are not subclasses of \<open>Exception\<close>, are signals to the interpreter and not
  failures of the content source or of the storage; they are not modelled.
\<close>

datatype exc =
    DisambiguationError str
  | PageError str
  | HTTPTimeoutError str
  | OSError str
  | ValueError str
  | UnicodeEncodeError str
  | OtherException str

fun exc_str :: "exc \<Rightarrow> str" where
  "exc_str (DisambiguationError m) = m"
| "exc_str (PageError m) = m"
| "exc_str (HTTPTimeoutError m) = m"
| "exc_str (OSError m) = m"
| "exc_str (ValueError m) = m"
| "exc_str (UnicodeEncodeError m) = m"
| "exc_str (OtherException m) = m"

text \<open>
  What \<open>wikipedia.page\<close> returns: the canonical title, and the \<open>references\<close>
  property, which the library computes on access (it may raise, and the source guards
  against an empty value with \<open>or []\<close>).
\<close>

record page =
  page_title :: str
  page_references :: "exc + str list option"

record FetchResult =
  title :: str
  references :: "str list"
  error :: "str option"

text \<open>
  A stored file: the text handed to \<open>write_text\<close> and the encoding it was written
  with. The output directory is the map from file names to stored files.
\<close>

record stored =
  content :: str
  encoding :: str

type_synonym dir = "str \<rightharpoonup> stored"

text \<open>
  What the operating system does with one \<open>write_text\<close>: the file is written, or the
  call raises and leaves the directory as it was (\<open>Failed e None\<close>) or leaves a file
  behind (\<open>Failed e (Some f)\<close>, as when the file was opened and the write then failed).
\<close>

datatype write_outcome = Written | Failed exc "stored option"

text \<open>
  The world outside the program: the content source, as the function from a requested
  title to what \<open>wikipedia.page(title, auto_suggest=False)\<close> does; the storage, as
  the function from a file name, a text and an encoding to what the write does; and the
  standard output, as the function from a line to the exception \<open>print\<close> raises for
  it, if any (a console whose encoding lacks a character of the line raises
  \<open>UnicodeEncodeError\<close>). All three are deterministic, as a stub is.
\<close>

record env =
  wikipedia_page :: "str \<Rightarrow> exc + page"
  disk :: "str \<Rightarrow> str \<Rightarrow> str \<Rightarrow> write_outcome"
  stdout :: "str \<Rightarrow> exc option"

section \<open>Core operations\<close>

text \<open>The body of the \<open>try\<close> block of \<open>fetch_page_references\<close>.\<close>

definition fetch_try :: "env \<Rightarrow> str \<Rightarrow> exc + FetchResult" where
  "fetch_try e t =
     (case wikipedia_page e t of
        Inl x \<Rightarrow> Inl x
      | Inr p \<Rightarrow>
          (case page_references p of
             Inl x \<Rightarrow> Inl x
           | Inr refs \<Rightarrow>
               Inr \<lparr>title = page_title p,
                    references = (case refs of None \<Rightarrow> [] | Some rs \<Rightarrow> rs),
                    error = None\<rparr>))"

text \<open>
  The \<open>except\<close> clauses, in the order of the source; the last one catches every other
  \<open>Exception\<close>.
\<close>

fun fetch_except :: "str \<Rightarrow> exc \<Rightarrow> exc + FetchResult" where
  "fetch_except t (DisambiguationError m) =
     Inr \<lparr>title = t, references = [], error = Some (py ''Disambiguation: '' @ m)\<rparr>"
| "fetch_except t (PageError m) =
     Inr \<lparr>title = t, references = [], error = Some (py ''PageError: '' @ m)\<rparr>"
| "fetch_except t (HTTPTimeoutError m) =
     Inr \<lparr>title = t, references = [], error = Some (py ''Timeout: '' @ m)\<rparr>"
| "fetch_except t x =
     Inr \<lparr>title = t, references = [], error = Some (py ''Unexpected: '' @ exc_str x)\<rparr>"

definition fetch_page_references :: "env \<Rightarrow> str \<Rightarrow> exc + FetchResult" where
  "fetch_page_references e t =
     (case fetch_try e t of Inr r \<Rightarrow> Inr r | Inl x \<Rightarrow> fetch_except t x)"

definition newline :: str where
  "newline = [10]"

definition write_text :: "env \<Rightarrow> str \<Rightarrow> str \<Rightarrow> str \<Rightarrow> dir \<Rightarrow> (exc + unit) \<times> dir" where
  "write_text e name body enc d =
     (case disk e name body enc of
        Written \<Rightarrow> (Inr (), d(name \<mapsto> \<lparr>content = body, encoding = enc\<rparr>))
      | Failed x left \<Rightarrow>
          (Inl x, (case left of None \<Rightarrow> d | Some f \<Rightarrow> d(name \<mapsto> f))))"

text \<open>
  \<open>save_references\<close> returns the path it wrote, modelled by its \<open>name\<close> (the only part
  the callers use), or \<open>None\<close>; it raises what \<open>write_text\<close> raises.
\<close>

definition save_references :: "env \<Rightarrow> FetchResult \<Rightarrow> dir \<Rightarrow> (exc + str option) \<times> dir" where
  "save_references e result outdir =
     (if error result \<noteq> None then (Inr None, outdir)
      else
        (let fn = safe_filename (title result) @ py ''.txt'';
             body = join newline (references result)
         in (case write_text e fn body (py ''utf-8'') outdir of
               (Inl x, d) \<Rightarrow> (Inl x, d)
             | (Inr u, d) \<Rightarrow> (Inr (Some fn), d))))"

section \<open>Execution strategies\<close>

text \<open>
  A strategy runs in a world made of the output directory and the lines printed so far,
  and returns the aggregate \<open>(ok, skipped)\<close> or the exception that left it, with the
  world as it then is.
\<close>

type_synonym world = "dir \<times> str list"

definition check_mark :: str where
  "check_mark = [10003]"

definition en_dash :: str where
  "en_dash = [8211]"

text \<open>How an f-string prints a value of type \<open>str | None\<close>.\<close>

definition fmt :: "str option \<Rightarrow> str" where
  "fmt v = (case v of None \<Rightarrow> py ''None'' | Some s \<Rightarrow> s)"

definition wrote_line :: "str \<Rightarrow> str" where
  "wrote_line name = check_mark @ py '' wrote '' @ name"

definition skipped_line :: "str \<Rightarrow> str \<Rightarrow> str" where
  "skipped_line t detail = en_dash @ py '' skipped '' @ t @ py '' ('' @ detail @ py '')''"

text \<open>
  \<open>print(line)\<close>: the line is added to what was printed, or the standard output raises
  and nothing is added.
\<close>

definition print :: "env \<Rightarrow> str \<Rightarrow> str list \<Rightarrow> exc + str list" where
  "print e line out = (case stdout e line of None \<Rightarrow> Inr (out @ [line]) | Some x \<Rightarrow> Inl x)"

text \<open>
  The loop of \<open>run_sequential\<close>. A \<open>Path\<close> is always true, so \<open>if p\<close> asks whether
  \<open>save_references\<close> returned a path. Nothing catches what \<open>save_references\<close> or
  \<open>print\<close> raises.
\<close>

fun seq_loop :: "env \<Rightarrow> str list \<Rightarrow> int \<Rightarrow> int \<Rightarrow> world \<Rightarrow> (exc + int \<times> int) \<times> world" where
  "seq_loop e [] ok skipped w = (Inr (ok, skipped), w)"
| "seq_loop e (t # ts) ok skipped (d, out) =
     (case fetch_page_references e t of
        Inl x \<Rightarrow> (Inl x, (d, out))
      | Inr res \<Rightarrow>
          (case save_references e res d of
             (Inl x, d') \<Rightarrow> (Inl x, (d', out))
           | (Inr (Some p), d') \<Rightarrow>
               (case print e (wrote_line p) out of
                  Inl y \<Rightarrow> (Inl y, (d', out))
                | Inr out' \<Rightarrow> seq_loop e ts (ok + 1) skipped (d', out'))
           | (Inr None, d') \<Rightarrow>
               (case print e (skipped_line t (fmt (error res))) out of
                  Inl y \<Rightarrow> (Inl y, (d', out))
                | Inr out' \<Rightarrow> seq_loop e ts ok (skipped + 1) (d', out'))))"

definition run_sequential :: "env \<Rightarrow> str list \<Rightarrow> world \<Rightarrow> (exc + int \<times> int) \<times> world" where
  "run_sequential e titles w = seq_loop e titles 0 0 w"

text \<open>\<open>_process_worker\<close>: what one task of a pool does.\<close>

definition process_worker :: "env \<Rightarrow> str \<Rightarrow> dir \<Rightarrow> (exc + str \<times> str option) \<times> dir" where
  "process_worker e t outdir =
     (case fetch_page_references e t of
        Inl x \<Rightarrow> (Inl x, outdir)
      | Inr res \<Rightarrow>
          if error res \<noteq> None then (Inr (t, error res), outdir)
          else
            (case save_references e res outdir of
               (Inl x, d) \<Rightarrow> (Inl x, d)
             | (Inr p, d) \<Rightarrow> (Inr ((case p of Some n \<Rightarrow> n | None \<Rightarrow> t), None), d)))"

text \<open>
  Both executors of \<open>concurrent.futures\<close> refuse a pool size that is not positive with a
  \<open>ValueError\<close>; \<open>None\<close> lets the library choose the size.
\<close>

definition pool_executor :: "int option \<Rightarrow> exc + unit" where
  "pool_executor max_workers =
     (case max_workers of
        None \<Rightarrow> Inr ()
      | Some n \<Rightarrow>
          if n \<le> 0 then Inl (ValueError (py ''max_workers must be greater than 0''))
          else Inr ())"

text \<open>
  A future is named by its position in the submission order together with the title the
  \<open>futures\<close> dictionary maps it to. The pool runs the submitted tasks in some order and
  \<open>as_completed\<close> hands the finished futures over in some order: both orders are
  parameters of the model, and \<open>is_schedule\<close> says that an order names every submitted
  future once. Only the futures of the batch exist, so \<open>run_pool\<close> reads an order as an
  order of those. The pool size only restricts which orders can occur.

  A task touches the directory only and the loop of the orchestrator touches the
  counters and the printed lines only, so every interleaving of the two ends in the state
  reached by running the tasks first and the loop second. When an exception leaves the
  loop, leaving the \<open>with\<close> block still waits for every submitted task, so the tasks
  have all run then too. A task's write is one step. A worker process that dies without
  raising is not part of the model.
\<close>

type_synonym future = "nat \<times> str"

type_synonym outcome = "exc + str \<times> str option"

definition submit_all :: "str list \<Rightarrow> future list" where
  "submit_all titles = enumerate 0 titles"

definition is_schedule :: "str list \<Rightarrow> future list \<Rightarrow> bool" where
  "is_schedule titles order \<longleftrightarrow> distinct order \<and> set order = set (submit_all titles)"

fun run_workers ::
  "env \<Rightarrow> future list \<Rightarrow> (future \<times> outcome) list \<Rightarrow> dir \<Rightarrow> (future \<times> outcome) list \<times> dir" where
  "run_workers e [] finished d = (finished, d)"
| "run_workers e (f # fs) finished d =
     (case process_worker e (snd f) d of
        (r, d') \<Rightarrow> run_workers e fs (finished @ [(f, r)]) d')"

text \<open>
  The \<open>try\<close> block of the loop over \<open>as_completed(futures)\<close>, for one future:
  \<open>fut.result()\<close> returns what the task returned or raises what it raised, and the
  counter is changed before the line is printed. The block ends normally or with an
  exception, and in both cases with the counters as they are by then.
\<close>

definition pool_try ::
  "env \<Rightarrow> str \<Rightarrow> outcome \<Rightarrow> int \<Rightarrow> int \<Rightarrow> str list \<Rightarrow>
     (exc option \<times> int \<times> int) \<times> str list" where
  "pool_try e t r ok skipped out =
     (case r of
        Inl x \<Rightarrow> ((Some x, ok, skipped), out)
      | Inr (name_or_title, None) \<Rightarrow>
          (case print e (wrote_line name_or_title) out of
             Inr out' \<Rightarrow> ((None, ok + 1, skipped), out')
           | Inl y \<Rightarrow> ((Some y, ok + 1, skipped), out))
      | Inr (name_or_title, Some err) \<Rightarrow>
          (case print e (skipped_line t err) out of
             Inr out' \<Rightarrow> ((None, ok, skipped + 1), out')
           | Inl y \<Rightarrow> ((Some y, ok, skipped + 1), out)))"

text \<open>
  The body of the loop: the \<open>try\<close> block and the \<open>except Exception\<close> clause, which
  adds one to \<open>skipped\<close> and prints; what that \<open>print\<close> raises leaves the loop.
\<close>

definition pool_body ::
  "str \<Rightarrow> env \<Rightarrow> str \<Rightarrow> outcome \<Rightarrow> int \<Rightarrow> int \<Rightarrow> str list \<Rightarrow>
     (exc + int \<times> int) \<times> str list" where
  "pool_body label e t r ok skipped out =
     (case pool_try e t r ok skipped out of
        ((None, ok', skipped'), out') \<Rightarrow> (Inr (ok', skipped'), out')
      | ((Some x, ok', skipped'), out') \<Rightarrow>
          (case print e (skipped_line t (label @ exc_str x)) out' of
             Inr out'' \<Rightarrow> (Inr (ok', skipped' + 1), out'')
           | Inl y \<Rightarrow> (Inl y, out')))"

text \<open>
  The loop over \<open>as_completed(futures)\<close>. Only a finished future is ever handed over, so
  the loop passes over a future with no result.
\<close>

fun consume ::
  "str \<Rightarrow> env \<Rightarrow> (future \<times> outcome) list \<Rightarrow> future list \<Rightarrow> int \<Rightarrow> int \<Rightarrow> str list \<Rightarrow>
     (exc + int \<times> int) \<times> str list" where
  "consume label e finished [] ok skipped out = (Inr (ok, skipped), out)"
| "consume label e finished (f # fs) ok skipped out =
     (case map_of finished f of
        None \<Rightarrow> consume label e finished fs ok skipped out
      | Some r \<Rightarrow>
          (case pool_body label e (snd f) r ok skipped out of
             (Inl x, out') \<Rightarrow> (Inl x, out')
           | (Inr (ok', skipped'), out') \<Rightarrow> consume label e finished fs ok' skipped' out'))"

definition run_pool ::
  "str \<Rightarrow> env \<Rightarrow> str list \<Rightarrow> int option \<Rightarrow> future list \<Rightarrow> future list \<Rightarrow> world \<Rightarrow>
     (exc + int \<times> int) \<times> world" where
  "run_pool label e titles max_workers started completed w =
     (case pool_executor max_workers of
        Inl x \<Rightarrow> (Inl x, w)
      | Inr u \<Rightarrow>
          (let futures = submit_all titles in
           case run_workers e (filter (\<lambda>f. f \<in> set futures) started) [] (fst w) of
             (finished, d') \<Rightarrow>
               (case consume label e finished (filter (\<lambda>f. f \<in> set futures) completed)
                       0 0 (snd w) of
                  (r, out') \<Rightarrow> (r, (d', out')))))"

definition run_threads ::
  "env \<Rightarrow> str list \<Rightarrow> int option \<Rightarrow> future list \<Rightarrow> future list \<Rightarrow> world \<Rightarrow>
     (exc + int \<times> int) \<times> world" where
  "run_threads = run_pool (py ''thread error: '')"

definition run_processes ::
  "env \<Rightarrow> str list \<Rightarrow> int option \<Rightarrow> future list \<Rightarrow> future list \<Rightarrow> world \<Rightarrow>
     (exc + int \<times> int) \<times> world" where
  "run_processes = run_pool (py ''process error: '')"

section \<open>Auxiliary notions for the proofs\<close>

text \<open>
  A string is single-spaced when each of its whitespace characters is a space that is
  not followed by another whitespace character.
\<close>

fun single_spaced :: "str \<Rightarrow> bool" where
  "single_spaced [] = True"
| "single_spaced (c # cs) =
     ((isspace c \<longrightarrow> c = 32 \<and> (case cs of [] \<Rightarrow> True | d # _ \<Rightarrow> \<not> isspace d)) \<and>
      single_spaced cs)"

text \<open>
  What a task returns or raises, and what it does to the directory. The first does not
  depend on the directory, and the second is at most one update, which \<open>effect\<close> names.
\<close>

definition outcome_of :: "env \<Rightarrow> str \<Rightarrow> outcome" where
  "outcome_of e t = fst (process_worker e t Map.empty)"

definition touch :: "env \<Rightarrow> str \<Rightarrow> dir \<Rightarrow> dir" where
  "touch e t d = snd (process_worker e t d)"

definition effect :: "env \<Rightarrow> str \<Rightarrow> (str \<times> stored) option" where
  "effect e t =
     (case fetch_page_references e t of
        Inl x \<Rightarrow> None
      | Inr res \<Rightarrow>
          if error res \<noteq> None then None
          else
            (case disk e (safe_filename (title res) @ py ''.txt'')
                    (join newline (references res)) (py ''utf-8'') of
               Written \<Rightarrow>
                 Some (safe_filename (title res) @ py ''.txt'',
                       \<lparr>content = join newline (references res), encoding = py ''utf-8''\<rparr>)
             | Failed x None \<Rightarrow> None
             | Failed x (Some f) \<Rightarrow> Some (safe_filename (title res) @ py ''.txt'', f)))"

text \<open>
  Whether an outcome counts as written, whether the line that says so cannot be printed,
  and the line the pool ends up printing for an outcome when every \<open>skipped\<close> line can
  be printed.
\<close>

fun succeeded :: "outcome \<Rightarrow> bool" where
  "succeeded (Inr (n, None)) = True"
| "succeeded r = False"

fun unprinted :: "env \<Rightarrow> outcome \<Rightarrow> bool" where
  "unprinted e (Inr (n, None)) = (stdout e (wrote_line n) \<noteq> None)"
| "unprinted e r = False"

fun report :: "str \<Rightarrow> env \<Rightarrow> str \<Rightarrow> outcome \<Rightarrow> str" where
  "report label e t (Inr (n, None)) =
     (case stdout e (wrote_line n) of
        None \<Rightarrow> wrote_line n
      | Some y \<Rightarrow> skipped_line t (label @ exc_str y))"
| "report label e t (Inr (n, Some err)) = skipped_line t err"
| "report label e t (Inl x) = skipped_line t (label @ exc_str x)"

subsection \<open>Worlds for concrete runs\<close>

text \<open>
  \<open>stub\<close> is the content source of the concrete scenario with a storage that accepts
  every write and a standard output that prints every line; \<open>read_only_A\<close> is the same with a storage that refuses to write the file
  of page A and leaves it as it is; \<open>cp1252\<close> is \<open>stub\<close> with a standard output
  whose encoding has the dash but not the check mark, as a Windows console has. \<open>batch\<close> is the batch of the scenario and
  \<open>expected_dir\<close> the directory the scenario expects.
\<close>

definition stub :: env where
  "stub =
     \<lparr>wikipedia_page =
        (\<lambda>t. if t = py ''A'' then
                Inr \<lparr>page_title = py ''A'', page_references = Inr (Some [py ''r1'', py ''r2''])\<rparr>
              else if t = py ''B'' then Inl (HTTPTimeoutError (py ''timed out''))
              else if t = py ''C'' then
                Inr \<lparr>page_title = py ''C'', page_references = Inr (Some [])\<rparr>
              else Inl (PageError (py ''no match''))),
      disk = (\<lambda>name body enc. Written),
      stdout = (\<lambda>line. None)\<rparr>"

definition read_only_A :: env where
  "read_only_A =
     stub\<lparr>disk := (\<lambda>name body enc.
        if name = py ''A.txt'' then Failed (OSError (py ''Permission denied'')) None
        else Written)\<rparr>"

definition cp1252 :: env where
  "cp1252 =
     stub\<lparr>stdout := (\<lambda>line.
        if 10003 \<in> set line then Some (UnicodeEncodeError (py ''character maps to <undefined>''))
        else None)\<rparr>"

definition batch :: "str list" where
  "batch = [py ''A'', py ''B'', py ''C'']"

definition file_A :: stored where
  "file_A = \<lparr>content = py ''r1'' @ newline @ py ''r2'', encoding = py ''utf-8''\<rparr>"

definition file_C :: stored where
  "file_C = \<lparr>content = [], encoding = py ''utf-8''\<rparr>"

definition expected_dir :: dir where
  "expected_dir = [py ''A.txt'' \<mapsto> file_A, py ''C.txt'' \<mapsto> file_C]"

text \<open>Two schedules of the batch: in submission order, and with page C first.\<close>

definition in_order :: "future list" where
  "in_order = [(0, py ''A''), (1, py ''B''), (2, py ''C'')]"

definition c_first :: "future list" where
  "c_first = [(2, py ''C''), (0, py ''A''), (1, py ''B'')]"

section \<open>File names\<close>

lemma re_sub_runs_noop: "\<forall>c\<in>set s. \<not> P c \<Longrightarrow> re_sub_runs P r s = s"
  by (induction s) auto

lemma re_sub_runs_clean:
  "\<forall>c\<in>set r. \<not> P c \<Longrightarrow> c \<in> set (re_sub_runs P r s) \<Longrightarrow> \<not> P c"
  by (induction P r s rule: re_sub_runs.induct) (auto split: if_splits)

lemma re_sub_runs_subset:
  "set (re_sub_runs P r s) \<subseteq> set r \<union> set s"
  by (induction P r s rule: re_sub_runs.induct) (auto split: if_splits dest: set_dropWhileD)

lemma re_sub_runs_dropWhile_hd:
  assumes "re_sub_runs P [a] (dropWhile P s) = d # ds"
  shows "\<not> P d"
proof (cases "dropWhile P s")
  case Nil
  with assms show ?thesis by (simp del: dropWhile_eq_Nil_conv)
next
  case (Cons x xs)
  then have "\<not> P x" using hd_dropWhile[of P s] by auto
  with assms Cons show ?thesis by simp
qed

lemma single_spaced_re_sub: "single_spaced (re_sub_runs isspace [32] s)"
proof (induction isspace "[32::nat]" s rule: re_sub_runs.induct)
  case 1 show ?case by simp
next
  case (2 c cs)
  show ?case
  proof (cases "isspace c")
    case True
    with 2 show ?thesis
      by (auto split: list.splits dest: re_sub_runs_dropWhile_hd)
  next
    case False
    with 2 show ?thesis by simp
  qed
qed

lemma single_spaced_append1: "single_spaced (xs @ ys) \<Longrightarrow> single_spaced xs"
proof (induction xs)
  case Nil
  show ?case by simp
next
  case (Cons x xs)
  then show ?case by (cases xs) simp_all
qed

lemma single_spaced_append2: "single_spaced (xs @ ys) \<Longrightarrow> single_spaced ys"
  by (induction xs) auto

lemma rstrip_prefix: "\<exists>zs. s = rstrip s @ zs"
proof -
  have "rev s = takeWhile isspace (rev s) @ dropWhile isspace (rev s)" by simp
  then have "s = rev (dropWhile isspace (rev s)) @ rev (takeWhile isspace (rev s))"
    by (metis rev_append rev_rev_ident)
  then show ?thesis unfolding rstrip_def by blast
qed

lemma lstrip_suffix: "\<exists>zs. s = zs @ lstrip s"
  unfolding lstrip_def by (metis takeWhile_dropWhile_id)

lemma single_spaced_rstrip: "single_spaced s \<Longrightarrow> single_spaced (rstrip s)"
  using rstrip_prefix[of s] single_spaced_append1 by metis

lemma single_spaced_lstrip: "single_spaced s \<Longrightarrow> single_spaced (lstrip s)"
  using lstrip_suffix[of s] single_spaced_append2 by metis

lemma single_spaced_take: "single_spaced s \<Longrightarrow> single_spaced (take n s)"
  using single_spaced_append1[of "take n s" "drop n s"] by simp

lemma re_sub_runs_single_spaced:
  "single_spaced s \<Longrightarrow> re_sub_runs isspace [32] s = s"
proof (induction s)
  case Nil
  show ?case by simp
next
  case (Cons c cs)
  show ?case
  proof (cases "isspace c")
    case False
    with Cons show ?thesis by simp
  next
    case True
    with Cons.prems have c: "c = 32" and tl: "single_spaced cs"
      and nx: "cs = [] \<or> \<not> isspace (hd cs)"
      by (auto split: list.splits)
    from nx have "dropWhile isspace cs = cs" by (cases cs) auto
    with True c Cons.IH[OF tl] show ?thesis by simp
  qed
qed

lemma rstrip_last: "rstrip s \<noteq> [] \<Longrightarrow> \<not> isspace (last (rstrip s))"
  unfolding rstrip_def using hd_dropWhile[of isspace "rev s"]
  by (simp add: last_rev)

lemma lstrip_hd: "lstrip s \<noteq> [] \<Longrightarrow> \<not> isspace (hd (lstrip s))"
  unfolding lstrip_def using hd_dropWhile[of isspace s] by simp

lemma lstrip_noop: "s = [] \<or> \<not> isspace (hd s) \<Longrightarrow> lstrip s = s"
  unfolding lstrip_def by (cases s) auto

lemma rstrip_noop:
  assumes "s = [] \<or> \<not> isspace (last s)"
  shows "rstrip s = s"
proof (cases "rev s")
  case Nil
  then show ?thesis by (simp add: rstrip_def)
next
  case (Cons x xs)
  then have "s \<noteq> []" and "last s = x" by (auto simp: last_rev[symmetric] simp del: last_rev)
  with assms have "\<not> isspace x" by simp
  with Cons have "dropWhile isspace (rev s) = rev s" by simp
  then show ?thesis by (simp add: rstrip_def)
qed

lemma rstrip_hd:
  assumes "s = [] \<or> \<not> isspace (hd s)"
  shows "rstrip s = [] \<or> \<not> isspace (hd (rstrip s))"
proof (cases "rstrip s")
  case Nil
  then show ?thesis by simp
next
  case (Cons x xs)
  obtain zs where "s = rstrip s @ zs" using rstrip_prefix by blast
  with Cons have "s = x # (xs @ zs)" by simp
  then have "hd s = x" and "s \<noteq> []" by simp_all
  with assms Cons show ?thesis by simp
qed

lemma take_hd:
  assumes "s = [] \<or> \<not> isspace (hd s)"
  shows "take n s = [] \<or> \<not> isspace (hd (take n s))"
proof (cases s)
  case Nil
  then show ?thesis by simp
next
  case (Cons x xs)
  with assms show ?thesis by (cases n) simp_all
qed

lemma py_underscore: "py ''_'' = [95]"
  by (simp add: py_def)

lemma py_space: "py '' '' = [32]"
  by (simp add: py_def)

lemma safe_filename_unfold:
  "safe_filename s =
     rstrip (take 150 (rstrip (lstrip (re_sub_runs isspace [32] (re_sub_runs illegal [95] s)))))"
  by (simp only: safe_filename_def Let_def strip_def py_underscore py_space)

lemma safe_filename_trim:
  "safe_filename s = [] \<or>
   (\<not> isspace (hd (safe_filename s)) \<and> \<not> isspace (last (safe_filename s)))"
proof -
  define a where "a = lstrip (re_sub_runs isspace [32] (re_sub_runs illegal [95] s))"
  have "a = [] \<or> \<not> isspace (hd a)" unfolding a_def using lstrip_hd by blast
  then have "rstrip a = [] \<or> \<not> isspace (hd (rstrip a))" by (rule rstrip_hd)
  then have "take 150 (rstrip a) = [] \<or> \<not> isspace (hd (take 150 (rstrip a)))"
    by (rule take_hd)
  then have h: "rstrip (take 150 (rstrip a)) = [] \<or>
      \<not> isspace (hd (rstrip (take 150 (rstrip a))))"
    by (rule rstrip_hd)
  have l: "rstrip (take 150 (rstrip a)) = [] \<or>
      \<not> isspace (last (rstrip (take 150 (rstrip a))))"
    using rstrip_last by blast
  have "safe_filename s = rstrip (take 150 (rstrip a))"
    unfolding a_def by (rule safe_filename_unfold)
  with h l show ?thesis by metis
qed

lemma safe_filename_single_spaced: "single_spaced (safe_filename s)"
  unfolding safe_filename_unfold
  by (intro single_spaced_rstrip single_spaced_take single_spaced_lstrip single_spaced_re_sub)

lemma set_rstrip: "set (rstrip s) \<subseteq> set s"
  unfolding rstrip_def using set_dropWhileD[of _ isspace "rev s"] by auto

lemma set_lstrip: "set (lstrip s) \<subseteq> set s"
  unfolding lstrip_def using set_dropWhileD[of _ isspace s] by auto

lemma safe_filename_legal:
  assumes "c \<in> set (safe_filename s)"
  shows "\<not> illegal c"
proof -
  define b where "b = re_sub_runs isspace [32] (re_sub_runs illegal [95] s)"
  have "set (safe_filename s) \<subseteq> set (take 150 (rstrip (lstrip b)))"
    unfolding safe_filename_unfold b_def by (rule set_rstrip)
  also have "\<dots> \<subseteq> set (rstrip (lstrip b))" by (rule set_take_subset)
  also have "\<dots> \<subseteq> set (lstrip b)" by (rule set_rstrip)
  also have "\<dots> \<subseteq> set b" by (rule set_lstrip)
  finally have "c \<in> set b" using assms by blast
  then have "c \<in> set [32] \<union> set (re_sub_runs illegal [95] s)"
    unfolding b_def using re_sub_runs_subset[of isspace "[32]"] by blast
  then have "c = 32 \<or> c \<in> set (re_sub_runs illegal [95] s)" by simp
  moreover have "\<not> illegal 32" by (simp add: illegal_def)
  moreover have "\<forall>x\<in>set [95]. \<not> illegal x" by (simp add: illegal_def)
  ultimately show ?thesis using re_sub_runs_clean[of "[95]" illegal c s] by blast
qed

lemma safe_filename_length: "length (safe_filename s) \<le> 150"
proof -
  have r: "length (rstrip t) \<le> length t" for t
    unfolding rstrip_def using length_dropWhile_le[of isspace "rev t"] by simp
  have "length (safe_filename s) \<le>
      length (take 150 (rstrip (lstrip (re_sub_runs isspace [32] (re_sub_runs illegal [95] s)))))"
    unfolding safe_filename_unfold by (rule r)
  also have "\<dots> \<le> 150" by simp
  finally show ?thesis .
qed

lemma safe_filename_idem: "safe_filename (safe_filename s) = safe_filename s"
proof -
  define t where "t = safe_filename s"
  have trim: "t = [] \<or> (\<not> isspace (hd t) \<and> \<not> isspace (last t))"
    unfolding t_def by (rule safe_filename_trim)
  have 1: "re_sub_runs illegal [95] t = t"
    unfolding t_def by (rule re_sub_runs_noop) (blast dest: safe_filename_legal)
  have 2: "re_sub_runs isspace [32] t = t"
    unfolding t_def by (rule re_sub_runs_single_spaced [OF safe_filename_single_spaced])
  have 3: "lstrip t = t" using trim by (intro lstrip_noop) blast
  have 4: "rstrip t = t" using trim by (intro rstrip_noop) blast
  have 5: "take 150 t = t" unfolding t_def using safe_filename_length[of s] by simp
  have "safe_filename t = t"
    by (simp only: safe_filename_unfold [of t] 1 2 3 4 5)
  then show ?thesis unfolding t_def .
qed

text \<open>
  C10. \<open>safe_filename\<close> is idempotent, its result has at most 150 characters, and none
  of them is a backslash, a slash, a colon, an asterisk, a question mark, a double quote,
  a less-than sign, a greater-than sign or a vertical bar.
\<close>

theorem safe_filename_idempotent_bounded:
  "safe_filename (safe_filename s) = safe_filename s \<and>
   length (safe_filename s) \<le> 150 \<and>
   (\<forall>c \<in> set (safe_filename s). \<not> illegal c)"
  using safe_filename_idem safe_filename_length safe_filename_legal by blast

theorem safe_filename_idempotent_bounded_witness:
  "safe_filename (py ''  a/b:c   d  '') = py ''a_b_c d'' \<and>
   safe_filename (safe_filename (py ''  a/b:c   d  '')) = py ''a_b_c d'' \<and>
   length (safe_filename (py ''  a/b:c   d  '')) \<le> 150 \<and>
   \<not> illegal (hd (safe_filename (py ''  a/b:c   d  '')))"
proof -
  have v: "safe_filename (py ''  a/b:c   d  '') = py ''a_b_c d''"
    by (simp add: safe_filename_def py_def illegal_def isspace_def strip_def lstrip_def
        rstrip_def)
  have m: "hd (py ''a_b_c d'') \<in> set (py ''a_b_c d'')"
    by (simp add: py_def)
  show ?thesis
    using safe_filename_idempotent_bounded [of "py ''  a/b:c   d  ''"] m
    unfolding v by blast
qed

section \<open>The item processor and the result sink\<close>

lemma fetch_page_references_total: "\<exists>r. fetch_page_references e t = Inr r"
proof (cases "fetch_try e t")
  case (Inl x)
  then show ?thesis by (cases x) (simp_all add: fetch_page_references_def)
next
  case (Inr r)
  then show ?thesis by (simp add: fetch_page_references_def)
qed

lemma fetch_try_success:
  "fetch_try e t = Inr r \<Longrightarrow> error r = None"
  by (auto simp: fetch_try_def split: sum.splits)

lemma fetch_except_failure:
  "fetch_except t x = Inr r \<Longrightarrow>
     title r = t \<and> references r = [] \<and>
     error r \<in> {Some (py ''Disambiguation: '' @ exc_str x), Some (py ''PageError: '' @ exc_str x),
                 Some (py ''Timeout: '' @ exc_str x), Some (py ''Unexpected: '' @ exc_str x)}"
  by (cases x) auto

lemma fetch_except_total: "\<exists>r. fetch_except t x = Inr r"
  by (cases x) simp_all

lemma save_references_failure:
  "error r \<noteq> None \<Longrightarrow> save_references e r d = (Inr None, d)"
  by (simp add: save_references_def)

lemma process_worker_split:
  "process_worker e t d = (outcome_of e t, touch e t d)"
  unfolding outcome_of_def touch_def process_worker_def save_references_def write_text_def Let_def
  by (auto split: sum.splits write_outcome.splits option.splits prod.splits)

lemma touch_effect:
  "touch e t d = (case effect e t of None \<Rightarrow> d | Some (k, v) \<Rightarrow> d(k \<mapsto> v))"
  unfolding effect_def touch_def process_worker_def save_references_def write_text_def Let_def
  by (auto split: sum.splits write_outcome.splits option.splits prod.splits)

lemma stub_fetch_A:
  "fetch_page_references stub (py ''A'') =
     Inr \<lparr>title = py ''A'', references = [py ''r1'', py ''r2''], error = None\<rparr>"
  by (simp add: fetch_page_references_def fetch_try_def stub_def py_def)

lemma stub_fetch_B:
  "fetch_page_references stub (py ''B'') =
     Inr \<lparr>title = py ''B'', references = [], error = Some (py ''Timeout: timed out'')\<rparr>"
  by (simp add: fetch_page_references_def fetch_try_def stub_def py_def)

lemma stub_fetch_C:
  "fetch_page_references stub (py ''C'') =
     Inr \<lparr>title = py ''C'', references = [], error = None\<rparr>"
  by (simp add: fetch_page_references_def fetch_try_def stub_def py_def)

lemma safe_filename_A: "safe_filename (py ''A'') = py ''A''"
  by (simp add: safe_filename_def py_def illegal_def isspace_def strip_def lstrip_def rstrip_def)

lemma safe_filename_C: "safe_filename (py ''C'') = py ''C''"
  by (simp add: safe_filename_def py_def illegal_def isspace_def strip_def lstrip_def rstrip_def)

text \<open>
  C2. \<open>fetch_page_references\<close> never raises: it returns a result for every title, and
  whenever the content source raised (a disambiguation, a missing page, a timeout or any
  other exception) the result carries an error text, made of the label of the handler and
  the text of the exception.
\<close>

theorem fetch_page_references_never_raises:
  "\<exists>r. fetch_page_references e t = Inr r \<and>
     (\<forall>x. fetch_try e t = Inl x \<longrightarrow>
        error r \<noteq> None \<and>
        error r \<in> {Some (py ''Disambiguation: '' @ exc_str x),
                    Some (py ''PageError: '' @ exc_str x),
                    Some (py ''Timeout: '' @ exc_str x),
                    Some (py ''Unexpected: '' @ exc_str x)})"
proof (cases "fetch_try e t")
  case (Inr r)
  then show ?thesis by (simp add: fetch_page_references_def)
next
  case (Inl x)
  obtain r where r: "fetch_except t x = Inr r" using fetch_except_total by blast
  from fetch_except_failure [OF r] have "error r \<noteq> None" by auto
  with Inl r fetch_except_failure [OF r] show ?thesis
    by (simp add: fetch_page_references_def)
qed

theorem fetch_page_references_never_raises_witness:
  "fetch_try stub (py ''B'') = Inl (HTTPTimeoutError (py ''timed out'')) \<and>
   (\<exists>r. fetch_page_references stub (py ''B'') = Inr r \<and>
        error r = Some (py ''Timeout: timed out''))"
proof -
  have t: "fetch_try stub (py ''B'') = Inl (HTTPTimeoutError (py ''timed out''))"
    by (simp add: fetch_try_def stub_def py_def)
  from fetch_page_references_never_raises [of stub "py ''B''"]
  obtain r where "fetch_page_references stub (py ''B'') = Inr r" by blast
  with stub_fetch_B t show ?thesis by simp
qed

text \<open>
  C9. When the content source raised, the result keeps the requested title and has no
  references; a result whose title differs from the requested one, or whose references are
  not empty, is a success.
\<close>

theorem failure_keeps_requested_title:
  "(\<forall>x. fetch_try e t = Inl x \<longrightarrow>
      (\<exists>r. fetch_page_references e t = Inr r \<and> error r \<noteq> None \<and>
           title r = t \<and> references r = [])) \<and>
   (\<forall>r. fetch_page_references e t = Inr r \<and> (title r \<noteq> t \<or> references r \<noteq> []) \<longrightarrow>
      error r = None)"
proof (cases "fetch_try e t")
  case (Inr r)
  then show ?thesis
    using fetch_try_success [OF Inr] by (simp add: fetch_page_references_def)
next
  case (Inl x)
  obtain r where r: "fetch_except t x = Inr r" using fetch_except_total by blast
  from fetch_except_failure [OF r] have "error r \<noteq> None" "title r = t" "references r = []"
    by auto
  with Inl r show ?thesis by (simp add: fetch_page_references_def)
qed

theorem failure_keeps_requested_title_witness:
  "fetch_try stub (py ''B'') = Inl (HTTPTimeoutError (py ''timed out'')) \<and>
   (\<exists>r. fetch_page_references stub (py ''B'') = Inr r \<and> error r \<noteq> None \<and>
        title r = py ''B'' \<and> references r = [])"
proof -
  have t: "fetch_try stub (py ''B'') = Inl (HTTPTimeoutError (py ''timed out''))"
    by (simp add: fetch_try_def stub_def py_def)
  with failure_keeps_requested_title [of stub "py ''B''"] show ?thesis by blast
qed

text \<open>
  C8. For a success whose write the storage accepts, \<open>save_references\<close> writes exactly
  one file: its name is the sanitized title followed by \<open>.txt\<close>, its text is the
  references joined by newlines with nothing after the last one, its encoding is UTF-8,
  and every other file of the directory is as before.
\<close>

theorem success_outcome_artifact:
  assumes "error r = None"
    and "disk e (safe_filename (title r) @ py ''.txt'') (join newline (references r))
           (py ''utf-8'') = Written"
  shows "\<exists>d'. save_references e r d = (Inr (Some (safe_filename (title r) @ py ''.txt'')), d') \<and>
     d' (safe_filename (title r) @ py ''.txt'') =
       Some \<lparr>content = join newline (references r), encoding = py ''utf-8''\<rparr> \<and>
     (\<forall>k. k \<noteq> safe_filename (title r) @ py ''.txt'' \<longrightarrow> d' k = d k)"
  using assms by (simp add: save_references_def write_text_def Let_def)

theorem success_outcome_artifact_witness:
  "\<exists>d'. save_references stub
       \<lparr>title = py ''A'', references = [py ''r1'', py ''r2''], error = None\<rparr> Map.empty =
         (Inr (Some (py ''A.txt'')), d') \<and>
     d' (py ''A.txt'') = Some \<lparr>content = py ''r1'' @ [10] @ py ''r2'', encoding = py ''utf-8''\<rparr> \<and>
     d' (py ''B.txt'') = None"
proof -
  have h1: "error \<lparr>title = py ''A'', references = [py ''r1'', py ''r2''], error = None\<rparr> = None"
    by simp
  have h2: "disk stub
      (safe_filename (title \<lparr>title = py ''A'', references = [py ''r1'', py ''r2''], error = None\<rparr>) @ py ''.txt'')
      (join newline (references \<lparr>title = py ''A'', references = [py ''r1'', py ''r2''], error = None\<rparr>))
      (py ''utf-8'') = Written"
    by (simp add: stub_def)
  have n: "py ''A.txt'' = py ''A'' @ py ''.txt''" "py ''B.txt'' \<noteq> py ''A'' @ py ''.txt''"
    by (simp_all add: py_def)
  from success_outcome_artifact [OF h1 h2, of Map.empty]
  obtain d' where
    "save_references stub \<lparr>title = py ''A'', references = [py ''r1'', py ''r2''], error = None\<rparr>
       Map.empty = (Inr (Some (py ''A.txt'')), d')"
    and "d' (py ''A.txt'') =
       Some \<lparr>content = py ''r1'' @ [10] @ py ''r2'', encoding = py ''utf-8''\<rparr>"
    and "\<forall>k. k \<noteq> py ''A.txt'' \<longrightarrow> d' k = None"
    by (auto simp: safe_filename_A n newline_def)
  with n show ?thesis by auto
qed

section \<open>The pool\<close>

lemma run_workers_closed:
  "run_workers e fs fin d =
     (fin @ map (\<lambda>f. (f, outcome_of e (snd f))) fs, fold (\<lambda>f. touch e (snd f)) fs d)"
  by (induction fs arbitrary: fin d) (simp_all add: process_worker_split)

lemma map_of_tabulated:
  "f \<in> set fs \<Longrightarrow> map_of (map (\<lambda>f. (f, g f)) fs) f = Some (g f)"
  by (induction fs) auto

lemma pool_body_closed:
  assumes "\<forall>title detail. stdout e (skipped_line title detail) = None"
  shows "pool_body label e t r ok skipped out =
     (Inr (ok + (if succeeded r then 1 else 0),
           skipped + (if succeeded r then 0 else 1) + (if unprinted e r then 1 else 0)),
      out @ [report label e t r])"
proof (cases r)
  case (Inl x)
  then show ?thesis by (simp add: pool_body_def pool_try_def print_def assms)
next
  case (Inr p)
  obtain n v where p: "p = (n, v)" by (cases p)
  show ?thesis
  proof (cases v)
    case (Some err)
    with Inr p show ?thesis by (simp add: pool_body_def pool_try_def print_def assms)
  next
    case None
    show ?thesis
    proof (cases "stdout e (wrote_line n)")
      case None
      with Inr p \<open>v = None\<close> show ?thesis by (simp add: pool_body_def pool_try_def print_def)
    next
      case (Some y)
      with Inr p \<open>v = None\<close> show ?thesis
        by (simp add: pool_body_def pool_try_def print_def assms)
    qed
  qed
qed

lemma consume_closed:
  assumes "\<forall>title detail. stdout e (skipped_line title detail) = None"
    and "\<forall>f\<in>set fs. map_of fin f = Some (outcome_of e (snd f))"
  shows "consume label e fin fs ok skipped out =
     (Inr (ok + int (length (filter (\<lambda>f. succeeded (outcome_of e (snd f))) fs)),
           skipped + int (length (filter (\<lambda>f. \<not> succeeded (outcome_of e (snd f))) fs)) +
             int (length (filter (\<lambda>f. unprinted e (outcome_of e (snd f))) fs))),
      out @ map (\<lambda>f. report label e (snd f) (outcome_of e (snd f))) fs)"
  using assms(2)
proof (induction fs arbitrary: ok skipped out)
  case Nil
  show ?case by simp
next
  case (Cons f fs)
  have m: "map_of fin f = Some (outcome_of e (snd f))" using Cons.prems by simp
  have r: "\<forall>f\<in>set fs. map_of fin f = Some (outcome_of e (snd f))" using Cons.prems by simp
  show ?case
    by (simp add: m pool_body_closed [OF assms(1)] Cons.IH [OF r])
qed

lemma distinct_submit_all: "distinct (submit_all titles)"
  by (simp add: submit_all_def distinct_enumerate)

lemma map_snd_submit_all: "map snd (submit_all titles) = titles"
  by (simp add: submit_all_def)

lemma schedule_mset:
  assumes "is_schedule titles order"
  shows "mset order = mset (submit_all titles)"
proof -
  from assms have "distinct order" and "set order = set (submit_all titles)"
    by (simp_all add: is_schedule_def)
  with distinct_submit_all [of titles] show ?thesis
    by (simp only: set_eq_iff_mset_eq_distinct [symmetric])
qed

lemma schedule_titles_mset:
  assumes "is_schedule titles order"
  shows "mset (map snd order) = mset titles"
proof -
  have "mset (map snd order) = image_mset snd (mset order)" by simp
  also have "\<dots> = image_mset snd (mset (submit_all titles))"
    by (simp only: schedule_mset [OF assms])
  also have "\<dots> = mset (map snd (submit_all titles))" by simp
  finally show ?thesis by (simp only: map_snd_submit_all)
qed

lemma schedule_titles_set:
  "is_schedule titles order \<Longrightarrow> set (map snd order) = set titles"
  using schedule_titles_mset [THEN mset_eq_setD] by blast

lemma schedule_count:
  assumes "is_schedule titles order"
  shows "length (filter (\<lambda>f. P (snd f)) order) = length (filter P titles)"
proof -
  have "length (filter (\<lambda>f. P (snd f)) order) = length (filter P (map snd order))"
    by (simp add: filter_map comp_def)
  also have "\<dots> = size (filter_mset P (mset (map snd order)))"
    by (simp only: mset_filter [symmetric] size_mset)
  also have "\<dots> = size (filter_mset P (mset titles))"
    by (simp only: schedule_titles_mset [OF assms])
  also have "\<dots> = length (filter P titles)"
    by (simp only: mset_filter [symmetric] size_mset)
  finally show ?thesis .
qed


lemma count_split:
  "int (length (filter P xs)) + int (length (filter (\<lambda>x. \<not> P x) xs)) = int (length xs)"
  using sum_length_filter_compl [of P xs] by simp

lemma fold_touch_map:
  "fold (\<lambda>f. touch e (snd f)) fs d = fold (touch e) (map snd fs) d"
  by (simp add: fold_map comp_def)

lemma run_pool_closed:
  assumes "pool_executor max_workers = Inr ()"
    and "is_schedule titles started" and "is_schedule titles completed"
    and "\<forall>title detail. stdout e (skipped_line title detail) = None"
  shows "run_pool label e titles max_workers started completed (d, out) =
     (Inr (int (length (filter (\<lambda>t. succeeded (outcome_of e t)) titles)),
           int (length (filter (\<lambda>t. \<not> succeeded (outcome_of e t)) titles)) +
             int (length (filter (\<lambda>t. unprinted e (outcome_of e t)) titles))),
      (fold (touch e) (map snd started) d,
       out @ map (\<lambda>f. report label e (snd f) (outcome_of e (snd f))) completed))"
proof -
  have "set completed = set started"
    using assms(2,3) by (simp add: is_schedule_def)
  then have look: "\<forall>f\<in>set completed.
      map_of (map (\<lambda>f. (f, outcome_of e (snd f))) started) f = Some (outcome_of e (snd f))"
    by (simp add: map_of_tabulated)
  have s: "filter (\<lambda>f. f \<in> set (submit_all titles)) started = started"
    using assms(2) by (simp add: is_schedule_def)
  have c: "filter (\<lambda>f. f \<in> set (submit_all titles)) completed = completed"
    using assms(3) by (simp add: is_schedule_def)
  show ?thesis
    unfolding run_pool_def Let_def s c
    by (simp add: assms(1) run_workers_closed consume_closed [OF assms(4) look] fold_touch_map
        schedule_count [OF assms(3), of "\<lambda>t. succeeded (outcome_of e t)"]
        schedule_count [OF assms(3), of "\<lambda>t. \<not> succeeded (outcome_of e t)"]
        schedule_count [OF assms(3), of "\<lambda>t. unprinted e (outcome_of e t)"])
qed

section \<open>The sequential loop and the directory\<close>

lemma fmt_Some: "fmt (Some s) = s"
  by (simp add: fmt_def)

lemma seq_loop_worker:
  "seq_loop e (t # ts) ok skipped (d, out) =
     (case process_worker e t d of
        (Inl x, d') \<Rightarrow> (Inl x, (d', out))
      | (Inr (n, None), d') \<Rightarrow>
          (case print e (wrote_line n) out of
             Inl y \<Rightarrow> (Inl y, (d', out))
           | Inr out' \<Rightarrow> seq_loop e ts (ok + 1) skipped (d', out'))
      | (Inr (n, Some err), d') \<Rightarrow>
          (case print e (skipped_line t err) out of
             Inl y \<Rightarrow> (Inl y, (d', out))
           | Inr out' \<Rightarrow> seq_loop e ts ok (skipped + 1) (d', out')))"
proof -
  obtain res where res: "fetch_page_references e t = Inr res"
    using fetch_page_references_total by blast
  show ?thesis
  proof (cases "error res")
    case (Some err)
    then show ?thesis
      by (simp add: res process_worker_def save_references_failure fmt_Some)
  next
    case None
    then show ?thesis
      by (simp add: res process_worker_def save_references_def Let_def
          split: prod.splits sum.splits)
  qed
qed

lemma seq_loop_step:
  "seq_loop e (t # ts) ok skipped (d, out) =
     (case outcome_of e t of
        Inl x \<Rightarrow> (Inl x, (touch e t d, out))
      | Inr (n, None) \<Rightarrow>
          (case print e (wrote_line n) out of
             Inl y \<Rightarrow> (Inl y, (touch e t d, out))
           | Inr out' \<Rightarrow> seq_loop e ts (ok + 1) skipped (touch e t d, out'))
      | Inr (n, Some err) \<Rightarrow>
          (case print e (skipped_line t err) out of
             Inl y \<Rightarrow> (Inl y, (touch e t d, out))
           | Inr out' \<Rightarrow> seq_loop e ts ok (skipped + 1) (touch e t d, out')))"
  by (simp only: seq_loop_worker process_worker_split prod.case)

lemma seq_loop_next:
  "seq_loop e (t # ts) ok skipped (d, out) = (r, (d', out')) \<Longrightarrow>
     d' = touch e t d \<or>
     (\<exists>ok2 sk2 out2. seq_loop e ts ok2 sk2 (touch e t d, out2) = (r, (d', out')))"
  by (auto simp: seq_loop_step simp del: seq_loop.simps(2)
      split: sum.splits prod.splits option.splits)

lemma seq_loop_dir:
  "seq_loop e ts ok skipped (d, out) = (r, (d', out')) \<Longrightarrow>
     \<exists>ps. set ps \<subseteq> set ts \<and> d' = fold (touch e) ps d"
proof (induction ts arbitrary: ok skipped d out)
  case Nil
  then have "d' = fold (touch e) [] d" by simp
  then show ?case by (intro exI [of _ "[]"]) simp
next
  case (Cons t ts)
  from seq_loop_next [OF Cons.prems] show ?case
  proof
    assume "d' = touch e t d"
    then have "d' = fold (touch e) [t] d" by simp
    then show ?thesis by (intro exI [of _ "[t]"]) simp
  next
    assume "\<exists>ok2 sk2 out2. seq_loop e ts ok2 sk2 (touch e t d, out2) = (r, (d', out'))"
    then obtain ok2 sk2 out2 where
      "seq_loop e ts ok2 sk2 (touch e t d, out2) = (r, (d', out'))" by blast
    from Cons.IH [OF this] obtain ps where
      ps: "set ps \<subseteq> set ts" "d' = fold (touch e) ps (touch e t d)" by blast
    then have "set (t # ps) \<subseteq> set (t # ts) \<and> d' = fold (touch e) (t # ps) d" by auto
    then show ?thesis by blast
  qed
qed

lemma effect_success:
  "effect e t = Some (k, v) \<Longrightarrow>
     \<exists>res. fetch_page_references e t = Inr res \<and> error res = None \<and>
       k = safe_filename (title res) @ py ''.txt''"
  unfolding effect_def
  by (auto split: sum.splits if_splits write_outcome.splits option.splits)

lemma fold_touch_frame:
  "fold (touch e) ts d k \<noteq> d k \<Longrightarrow> \<exists>t\<in>set ts. \<exists>v. effect e t = Some (k, v)"
proof (induction ts arbitrary: d)
  case Nil
  then show ?case by simp
next
  case (Cons t ts)
  show ?case
  proof (cases "fold (touch e) ts (touch e t d) k = touch e t d k")
    case False
    from Cons.IH [OF False] show ?thesis by auto
  next
    case True
    with Cons.prems have "touch e t d k \<noteq> d k" by simp
    then have "\<exists>v. effect e t = Some (k, v)"
      by (auto simp: touch_effect split: option.splits if_splits)
    then show ?thesis by auto
  qed
qed

lemma dom_fold_touch:
  "dom (fold (touch e) ts d) = dom d \<union> {k. \<exists>t\<in>set ts. \<exists>v. effect e t = Some (k, v)}"
proof (induction ts arbitrary: d)
  case Nil
  show ?case by simp
next
  case (Cons t ts)
  have "dom (touch e t d) = dom d \<union> {k. \<exists>v. effect e t = Some (k, v)}"
    by (auto simp: touch_effect split: option.splits if_splits)
  then show ?case by (auto simp: Cons.IH)
qed

lemma fold_touch_agree:
  assumes "\<forall>t\<in>set ts. \<forall>v'. effect e t = Some (k, v') \<longrightarrow> v' = v"
  shows "fold (touch e) ts d k = (if \<exists>t\<in>set ts. effect e t = Some (k, v) then Some v else d k)"
  using assms
proof (induction ts arbitrary: d)
  case Nil
  show ?case by simp
next
  case (Cons t ts)
  have r: "\<forall>t\<in>set ts. \<forall>v'. effect e t = Some (k, v') \<longrightarrow> v' = v" using Cons.prems by simp
  have h: "\<forall>v'. effect e t = Some (k, v') \<longrightarrow> v' = v" using Cons.prems by simp
  have "touch e t d k = (if effect e t = Some (k, v) then Some v else d k)"
  proof (cases "effect e t")
    case None
    then show ?thesis by (simp add: touch_effect)
  next
    case (Some kv)
    obtain k' v' where kv: "kv = (k', v')" by (cases kv)
    show ?thesis
    proof (cases "k' = k")
      case True
      with Some kv h have "v' = v" by simp
      with Some kv True show ?thesis by (simp add: touch_effect)
    next
      case False
      with Some kv show ?thesis by (simp add: touch_effect)
    qed
  qed
  then show ?case by (simp add: Cons.IH [OF r])
qed

section \<open>The concrete worlds\<close>

lemma py_txt: "py ''A'' @ py ''.txt'' = py ''A.txt''" "py ''C'' @ py ''.txt'' = py ''C.txt''"
  by (simp_all add: py_def)

lemma read_only_A_fetch: "fetch_page_references read_only_A t = fetch_page_references stub t"
  by (simp add: fetch_page_references_def fetch_try_def read_only_A_def)

lemma stub_worker_A:
  "process_worker stub (py ''A'') d = (Inr (py ''A.txt'', None), d(py ''A.txt'' \<mapsto> file_A))"
  by (simp add: process_worker_def stub_fetch_A save_references_def write_text_def Let_def
      safe_filename_A py_txt file_A_def)
     (simp add: stub_def)

lemma stub_worker_B:
  "process_worker stub (py ''B'') d = (Inr (py ''B'', Some (py ''Timeout: timed out'')), d)"
  by (simp add: process_worker_def stub_fetch_B)

lemma stub_worker_C:
  "process_worker stub (py ''C'') d = (Inr (py ''C.txt'', None), d(py ''C.txt'' \<mapsto> file_C))"
  by (simp add: process_worker_def stub_fetch_C save_references_def write_text_def Let_def
      safe_filename_C py_txt file_C_def)
     (simp add: stub_def)

lemma read_only_worker_A:
  "process_worker read_only_A (py ''A'') d = (Inl (OSError (py ''Permission denied'')), d)"
  by (simp add: process_worker_def read_only_A_fetch stub_fetch_A save_references_def
      write_text_def Let_def safe_filename_A py_txt)
     (simp add: read_only_A_def)

lemma read_only_worker_C:
  "process_worker read_only_A (py ''C'') d = (Inr (py ''C.txt'', None), d(py ''C.txt'' \<mapsto> file_C))"
  by (simp add: process_worker_def read_only_A_fetch stub_fetch_C save_references_def
      write_text_def Let_def safe_filename_C py_txt file_C_def)
     (simp add: read_only_A_def py_def)

lemma stub_outcomes:
  "outcome_of stub (py ''A'') = Inr (py ''A.txt'', None)"
  "outcome_of stub (py ''B'') = Inr (py ''B'', Some (py ''Timeout: timed out''))"
  "outcome_of stub (py ''C'') = Inr (py ''C.txt'', None)"
  by (simp_all add: outcome_of_def stub_worker_A stub_worker_B stub_worker_C)

lemma stub_touches:
  "touch stub (py ''A'') d = d(py ''A.txt'' \<mapsto> file_A)"
  "touch stub (py ''B'') d = d"
  "touch stub (py ''C'') d = d(py ''C.txt'' \<mapsto> file_C)"
  by (simp_all add: touch_def stub_worker_A stub_worker_B stub_worker_C)

lemma titles_distinct:
  "py ''A'' \<noteq> py ''B''" "py ''A'' \<noteq> py ''C''" "py ''B'' \<noteq> py ''C''"
  "py ''A.txt'' \<noteq> py ''C.txt''" "py ''B.txt'' \<noteq> py ''A.txt''" "py ''B.txt'' \<noteq> py ''C.txt''"
  by (simp_all add: py_def)

lemma stub_stdout: "stdout stub line = None"
  by (simp add: stub_def)

lemma read_only_stdout: "stdout read_only_A line = None"
  by (simp add: read_only_A_def stub_def)

lemma stub_sequential:
  "run_sequential stub batch (Map.empty, []) =
     (Inr (2, 1),
      (expected_dir,
       [wrote_line (py ''A.txt''), skipped_line (py ''B'') (py ''Timeout: timed out''),
        wrote_line (py ''C.txt'')]))"
  by (simp add: run_sequential_def batch_def seq_loop_step stub_outcomes stub_touches
      expected_dir_def print_def stub_stdout del: seq_loop.simps(2))

lemma schedules_of_batch: "is_schedule batch in_order" "is_schedule batch c_first"
  by (auto simp: is_schedule_def submit_all_def batch_def in_order_def c_first_def
      eval_nat_numeral)

lemma no_pool_size: "pool_executor None = Inr ()"
  by (simp add: pool_executor_def)

lemma stub_prints: "\<forall>title detail. stdout stub (skipped_line title detail) = None"
  by (simp add: stub_stdout)

lemma read_only_prints: "\<forall>title detail. stdout read_only_A (skipped_line title detail) = None"
  by (simp add: read_only_stdout)

lemma stub_threads:
  "run_threads stub batch None in_order c_first (Map.empty, []) =
     (Inr (2, 1),
      (expected_dir,
       [wrote_line (py ''C.txt''), wrote_line (py ''A.txt''),
        skipped_line (py ''B'') (py ''Timeout: timed out'')]))"
  unfolding run_threads_def run_pool_closed [OF no_pool_size schedules_of_batch stub_prints]
  by (simp add: batch_def in_order_def c_first_def stub_outcomes stub_touches expected_dir_def
      stub_stdout)

lemma read_only_worker_B:
  "process_worker read_only_A (py ''B'') d =
     (Inr (py ''B'', Some (py ''Timeout: timed out'')), d)"
  by (simp add: process_worker_def read_only_A_fetch stub_fetch_B)

lemma read_only_outcomes:
  "outcome_of read_only_A (py ''A'') = Inl (OSError (py ''Permission denied''))"
  "outcome_of read_only_A (py ''B'') = Inr (py ''B'', Some (py ''Timeout: timed out''))"
  "outcome_of read_only_A (py ''C'') = Inr (py ''C.txt'', None)"
  by (simp_all add: outcome_of_def read_only_worker_A read_only_worker_B read_only_worker_C)

lemma read_only_touches:
  "touch read_only_A (py ''A'') d = d"
  "touch read_only_A (py ''B'') d = d"
  "touch read_only_A (py ''C'') d = d(py ''C.txt'' \<mapsto> file_C)"
  by (simp_all add: touch_def read_only_worker_A read_only_worker_B read_only_worker_C)

lemma read_only_sequential:
  "run_sequential read_only_A batch (Map.empty, []) =
     (Inl (OSError (py ''Permission denied'')), (Map.empty, []))"
  by (simp add: run_sequential_def batch_def seq_loop_step read_only_outcomes read_only_touches
      del: seq_loop.simps(2))

lemma read_only_threads:
  "run_threads read_only_A batch None in_order c_first (Map.empty, []) =
     (Inr (1, 2),
      ([py ''C.txt'' \<mapsto> file_C],
       [wrote_line (py ''C.txt''),
        skipped_line (py ''A'') (py ''thread error: '' @ py ''Permission denied''),
        skipped_line (py ''B'') (py ''Timeout: timed out'')]))"
  unfolding run_threads_def
    run_pool_closed [OF no_pool_size schedules_of_batch read_only_prints]
  by (simp add: batch_def in_order_def c_first_def read_only_outcomes read_only_touches
      read_only_stdout)

lemma read_only_processes:
  "run_processes read_only_A batch None in_order c_first (Map.empty, []) =
     (Inr (1, 2),
      ([py ''C.txt'' \<mapsto> file_C],
       [wrote_line (py ''C.txt''),
        skipped_line (py ''A'') (py ''process error: '' @ py ''Permission denied''),
        skipped_line (py ''B'') (py ''Timeout: timed out'')]))"
  unfolding run_processes_def
    run_pool_closed [OF no_pool_size schedules_of_batch read_only_prints]
  by (simp add: batch_def in_order_def c_first_def read_only_outcomes read_only_touches
      read_only_stdout)

lemma cp1252_fetch: "fetch_page_references cp1252 t = fetch_page_references stub t"
  by (simp add: fetch_page_references_def fetch_try_def cp1252_def)

lemma cp1252_save: "save_references cp1252 r d = save_references stub r d"
  by (simp add: save_references_def write_text_def cp1252_def)

lemma cp1252_worker: "process_worker cp1252 t d = process_worker stub t d"
  unfolding process_worker_def cp1252_fetch cp1252_save by (rule refl)

lemma cp1252_outcome: "outcome_of cp1252 t = outcome_of stub t"
  by (simp add: outcome_of_def cp1252_worker)

lemma cp1252_touch: "touch cp1252 t d = touch stub t d"
  by (simp add: touch_def cp1252_worker)

lemma cp1252_wrote: "stdout cp1252 (wrote_line n) =
    Some (UnicodeEncodeError (py ''character maps to <undefined>''))"
  by (simp add: cp1252_def wrote_line_def check_mark_def)

lemma cp1252_skipped:
  "stdout cp1252 (skipped_line (py ''B'') (py ''Timeout: timed out'')) = None"
  "stdout cp1252 (skipped_line (py ''A'')
     (py ''thread error: '' @ py ''character maps to <undefined>'')) = None"
  "stdout cp1252 (skipped_line (py ''C'')
     (py ''thread error: '' @ py ''character maps to <undefined>'')) = None"
  "stdout cp1252 (skipped_line (py ''A'')
     (py ''process error: '' @ py ''character maps to <undefined>'')) = None"
  "stdout cp1252 (skipped_line (py ''C'')
     (py ''process error: '' @ py ''character maps to <undefined>'')) = None"
  by (simp_all add: cp1252_def skipped_line_def en_dash_def py_def)

lemma run_pool_unfold:
  assumes "pool_executor max_workers = Inr ()"
    and "is_schedule titles started" and "is_schedule titles completed"
  shows "run_pool label e titles max_workers started completed (d, out) =
     (case consume label e (map (\<lambda>f. (f, outcome_of e (snd f))) started) completed 0 0 out of
        (r, out') \<Rightarrow> (r, (fold (touch e) (map snd started) d, out')))"
proof -
  have s: "filter (\<lambda>f. f \<in> set (submit_all titles)) started = started"
    using assms(2) by (simp add: is_schedule_def)
  have c: "filter (\<lambda>f. f \<in> set (submit_all titles)) completed = completed"
    using assms(3) by (simp add: is_schedule_def)
  show ?thesis
    unfolding run_pool_def Let_def s c
    by (simp add: assms(1) run_workers_closed fold_touch_map)
qed

lemma cp1252_sequential:
  "run_sequential cp1252 batch (Map.empty, []) =
     (Inl (UnicodeEncodeError (py ''character maps to <undefined>'')),
      ([py ''A.txt'' \<mapsto> file_A], []))"
  by (simp add: run_sequential_def batch_def seq_loop_step cp1252_outcome cp1252_touch
      stub_outcomes stub_touches print_def cp1252_wrote del: seq_loop.simps(2))

lemma cp1252_threads:
  "run_threads cp1252 batch None in_order c_first (Map.empty, []) =
     (Inr (2, 3),
      (expected_dir,
       [skipped_line (py ''C'') (py ''thread error: '' @ py ''character maps to <undefined>''),
        skipped_line (py ''A'') (py ''thread error: '' @ py ''character maps to <undefined>''),
        skipped_line (py ''B'') (py ''Timeout: timed out'')]))"
  unfolding run_threads_def run_pool_unfold [OF no_pool_size schedules_of_batch]
  by (simp add: in_order_def c_first_def cp1252_outcome cp1252_touch stub_outcomes stub_touches
      pool_body_def pool_try_def print_def cp1252_wrote cp1252_skipped expected_dir_def)

lemma cp1252_processes:
  "run_processes cp1252 batch None in_order c_first (Map.empty, []) =
     (Inr (2, 3),
      (expected_dir,
       [skipped_line (py ''C'') (py ''process error: '' @ py ''character maps to <undefined>''),
        skipped_line (py ''A'') (py ''process error: '' @ py ''character maps to <undefined>''),
        skipped_line (py ''B'') (py ''Timeout: timed out'')]))"
  unfolding run_processes_def run_pool_unfold [OF no_pool_size schedules_of_batch]
  by (simp add: in_order_def c_first_def cp1252_outcome cp1252_touch stub_outcomes stub_touches
      pool_body_def pool_try_def print_def cp1252_wrote cp1252_skipped expected_dir_def)

section \<open>The strategies\<close>


text \<open>
  C1. A run of the pools on a standard output that cannot encode the check mark: the
  \<open>try\<close> block has already added one to \<open>ok\<close> when \<open>print\<close> raises, and the
  \<open>except\<close> clause then adds one to \<open>skipped\<close> for the same future, so that for the
  three titles of the batch the aggregate is \<open>ok = 2\<close> and \<open>skipped = 3\<close>.
\<close>

theorem pool_counts_twice_when_print_raises:
  "run_threads cp1252 batch None in_order c_first (Map.empty, []) =
     (Inr (2, 3),
      (expected_dir,
       [skipped_line (py ''C'') (py ''thread error: '' @ py ''character maps to <undefined>''),
        skipped_line (py ''A'') (py ''thread error: '' @ py ''character maps to <undefined>''),
        skipped_line (py ''B'') (py ''Timeout: timed out'')])) \<and>
   run_processes cp1252 batch None in_order c_first (Map.empty, []) =
     (Inr (2, 3),
      (expected_dir,
       [skipped_line (py ''C'') (py ''process error: '' @ py ''character maps to <undefined>''),
        skipped_line (py ''A'') (py ''process error: '' @ py ''character maps to <undefined>''),
        skipped_line (py ''B'') (py ''Timeout: timed out'')])) \<and>
   (2::int) + 3 \<noteq> int (length batch)"
  using cp1252_threads cp1252_processes by (simp add: batch_def)

text \<open>
  C4. A run with the deterministic content source of the scenario in which the storage
  refuses the file of page A: the sequential strategy returns no aggregate and leaves an
  empty directory, while both pools return \<open>ok = 1\<close> and \<open>skipped = 2\<close> and write the
  file of page C.
\<close>

theorem strategies_disagree_when_write_raises:
  "wikipedia_page read_only_A = wikipedia_page stub \<and>
   fst (run_sequential read_only_A batch (Map.empty, [])) =
     Inl (OSError (py ''Permission denied'')) \<and>
   fst (run_threads read_only_A batch None in_order c_first (Map.empty, [])) = Inr (1, 2) \<and>
   fst (run_processes read_only_A batch None in_order c_first (Map.empty, [])) = Inr (1, 2) \<and>
   dom (fst (snd (run_sequential read_only_A batch (Map.empty, [])))) = {} \<and>
   dom (fst (snd (run_threads read_only_A batch None in_order c_first (Map.empty, [])))) =
     {py ''C.txt''} \<and>
   dom (fst (snd (run_processes read_only_A batch None in_order c_first (Map.empty, [])))) =
     {py ''C.txt''}"
  by (simp add: read_only_sequential read_only_threads read_only_processes)
     (simp add: read_only_A_def)

text \<open>
  C3. A run in which the storage refuses the file of page A: the exception that
  \<open>save_references\<close> raises leaves \<open>run_sequential\<close>, which returns no aggregate and
  never reaches B and C, while both pools count A as skipped and go on.
\<close>

theorem sequential_lets_write_error_escape:
  "run_sequential read_only_A batch (Map.empty, []) =
     (Inl (OSError (py ''Permission denied'')), (Map.empty, [])) \<and>
   run_threads read_only_A batch None in_order c_first (Map.empty, []) =
     (Inr (1, 2),
      ([py ''C.txt'' \<mapsto> file_C],
       [wrote_line (py ''C.txt''),
        skipped_line (py ''A'') (py ''thread error: '' @ py ''Permission denied''),
        skipped_line (py ''B'') (py ''Timeout: timed out'')])) \<and>
   run_processes read_only_A batch None in_order c_first (Map.empty, []) =
     (Inr (1, 2),
      ([py ''C.txt'' \<mapsto> file_C],
       [wrote_line (py ''C.txt''),
        skipped_line (py ''A'') (py ''process error: '' @ py ''Permission denied''),
        skipped_line (py ''B'') (py ''Timeout: timed out'')]))"
  using read_only_sequential read_only_threads read_only_processes by blast

lemma stub_effects:
  "effect stub (py ''A'') = Some (py ''A.txt'', file_A)"
  "effect stub (py ''B'') = None"
  "effect stub (py ''C'') = Some (py ''C.txt'', file_C)"
proof -
  have w: "disk stub name body enc = Written" for name body enc
    by (simp add: stub_def)
  show "effect stub (py ''A'') = Some (py ''A.txt'', file_A)"
    by (simp add: effect_def stub_fetch_A safe_filename_A py_txt file_A_def w)
  show "effect stub (py ''B'') = None"
    by (simp add: effect_def stub_fetch_B)
  show "effect stub (py ''C'') = Some (py ''C.txt'', file_C)"
    by (simp add: effect_def stub_fetch_C safe_filename_C py_txt file_C_def w)
qed

lemma stub_dir:
  assumes "set ts = set batch"
  shows "fold (touch stub) ts Map.empty = expected_dir"
proof (rule ext)
  fix k
  have ts: "set ts = {py ''A'', py ''B'', py ''C''}" using assms by (simp add: batch_def)
  consider "k = py ''A.txt''" | "k = py ''C.txt''" | "k \<noteq> py ''A.txt''" "k \<noteq> py ''C.txt''"
    by blast
  then show "fold (touch stub) ts Map.empty k = expected_dir k"
  proof cases
    case 1
    have "\<forall>t\<in>set ts. \<forall>v'. effect stub t = Some (k, v') \<longrightarrow> v' = file_A"
      unfolding ts 1 using titles_distinct by (simp add: stub_effects)
    from fold_touch_agree [OF this, of Map.empty] show ?thesis
      unfolding ts 1 using titles_distinct by (simp add: stub_effects expected_dir_def)
  next
    case 2
    have "\<forall>t\<in>set ts. \<forall>v'. effect stub t = Some (k, v') \<longrightarrow> v' = file_C"
      unfolding ts 2 using titles_distinct by (simp add: stub_effects)
    from fold_touch_agree [OF this, of Map.empty] show ?thesis
      unfolding ts 2 using titles_distinct by (simp add: stub_effects expected_dir_def)
  next
    case 3
    have "\<forall>t\<in>set ts. \<forall>v'. effect stub t = Some (k, v') \<longrightarrow> v' = file_C"
      unfolding ts using 3 by (simp add: stub_effects)
    from fold_touch_agree [OF this, of Map.empty] show ?thesis
      unfolding ts using 3 by (simp add: stub_effects expected_dir_def)
  qed
qed

lemma stub_counts:
  "int (length (filter (\<lambda>t. succeeded (outcome_of stub t)) batch)) = 2"
  "int (length (filter (\<lambda>t. \<not> succeeded (outcome_of stub t)) batch)) +
     int (length (filter (\<lambda>t. unprinted stub (outcome_of stub t)) batch)) = 1"
  by (simp_all add: batch_def stub_outcomes stub_stdout)

lemma stub_pool:
  assumes "is_schedule batch started" and "is_schedule batch completed"
    and "pool_executor mw = Inr ()"
  shows "\<exists>out. run_pool label stub batch mw started completed (Map.empty, []) =
     (Inr (2, 1), (expected_dir, out))"
  unfolding run_pool_closed [OF assms(3,1,2) stub_prints] stub_counts
    stub_dir [OF schedule_titles_set [OF assms(1)]]
  by blast

text \<open>
  C6. The concrete scenario: for the batch A, B, C, where A has the references r1 and r2,
  B times out and C has no references, every strategy returns \<open>ok = 2\<close> and
  \<open>skipped = 1\<close> and leaves a directory that holds the file of A with the text
  \<open>r1\<close>, newline, \<open>r2\<close>, the empty file of C, and no file of B.
\<close>

theorem concrete_scenario:
  assumes "is_schedule batch started" and "is_schedule batch completed"
    and "pool_executor mw = Inr ()"
  shows
    "run_sequential stub batch (Map.empty, []) =
       (Inr (2, 1),
        (expected_dir,
         [wrote_line (py ''A.txt''), skipped_line (py ''B'') (py ''Timeout: timed out''),
          wrote_line (py ''C.txt'')])) \<and>
     (\<exists>out. run_threads stub batch mw started completed (Map.empty, []) =
        (Inr (2, 1), (expected_dir, out))) \<and>
     (\<exists>out. run_processes stub batch mw started completed (Map.empty, []) =
        (Inr (2, 1), (expected_dir, out))) \<and>
     expected_dir (py ''A.txt'') =
       Some \<lparr>content = py ''r1'' @ [10] @ py ''r2'', encoding = py ''utf-8''\<rparr> \<and>
     expected_dir (py ''C.txt'') = Some \<lparr>content = [], encoding = py ''utf-8''\<rparr> \<and>
     expected_dir (py ''B.txt'') = None \<and>
     dom expected_dir = {py ''A.txt'', py ''C.txt''}"
proof -
  have files: "expected_dir (py ''A.txt'') =
       Some \<lparr>content = py ''r1'' @ [10] @ py ''r2'', encoding = py ''utf-8''\<rparr>"
    "expected_dir (py ''C.txt'') = Some \<lparr>content = [], encoding = py ''utf-8''\<rparr>"
    "expected_dir (py ''B.txt'') = None"
    using titles_distinct by (simp_all add: expected_dir_def file_A_def file_C_def newline_def)
  have d: "dom expected_dir = {py ''A.txt'', py ''C.txt''}"
    by (auto simp: expected_dir_def)
  from stub_sequential stub_pool [OF assms] files d show ?thesis
    unfolding run_threads_def run_processes_def by blast
qed

theorem concrete_scenario_witness:
  "is_schedule batch in_order \<and> is_schedule batch c_first \<and> pool_executor None = Inr () \<and>
   run_threads stub batch None in_order c_first (Map.empty, []) =
     (Inr (2, 1),
      (expected_dir,
       [wrote_line (py ''C.txt''), wrote_line (py ''A.txt''),
        skipped_line (py ''B'') (py ''Timeout: timed out'')])) \<and>
   (\<exists>out. run_processes stub batch None in_order c_first (Map.empty, []) =
      (Inr (2, 1), (expected_dir, out))) \<and>
   expected_dir (py ''B.txt'') = None"
  using concrete_scenario [OF schedules_of_batch no_pool_size] schedules_of_batch no_pool_size
    stub_threads
  by blast

lemma run_pool_dir:
  assumes "run_pool label e titles mw started completed (d, out) = (r, (d', out'))"
  shows "d' = d \<or>
     d' = fold (touch e) (map snd (filter (\<lambda>f. f \<in> set (submit_all titles)) started)) d"
proof (cases "pool_executor mw")
  case (Inl x)
  with assms show ?thesis by (simp add: run_pool_def)
next
  case (Inr u)
  with assms show ?thesis
    by (simp add: run_pool_def Let_def run_workers_closed fold_touch_map split: prod.splits)
qed

lemma submitted_titles:
  "set (map snd (filter (\<lambda>f. f \<in> set (submit_all titles)) order)) \<subseteq> set titles"
proof -
  have "set (map snd (filter (\<lambda>f. f \<in> set (submit_all titles)) order)) \<subseteq>
      set (map snd (submit_all titles))"
    by auto
  then show ?thesis by (simp only: map_snd_submit_all)
qed

lemma changed_by_success:
  assumes "fold (touch e) ts d k \<noteq> d k" and "set ts \<subseteq> set titles"
  shows "\<exists>t\<in>set titles. \<exists>res. fetch_page_references e t = Inr res \<and> error res = None \<and>
     k = safe_filename (title res) @ py ''.txt''"
proof -
  from fold_touch_frame [OF assms(1)] obtain t v where
    t: "t \<in> set ts" "effect e t = Some (k, v)" by blast
  from effect_success [OF t(2)] t(1) assms(2) show ?thesis by blast
qed

lemma pool_changed_by_success:
  assumes "run_pool label e titles mw started completed (d, out) = (r, (d', out'))"
    and "d' k \<noteq> d k"
  shows "\<exists>t\<in>set titles. \<exists>res. fetch_page_references e t = Inr res \<and> error res = None \<and>
     k = safe_filename (title res) @ py ''.txt''"
proof -
  from run_pool_dir [OF assms(1)] assms(2)
  have "fold (touch e) (map snd (filter (\<lambda>f. f \<in> set (submit_all titles)) started)) d k \<noteq>
      d k"
    by auto
  then show ?thesis by (rule changed_by_success) (rule submitted_titles)
qed

text \<open>
  C5. \<open>save_references\<close> returns \<open>None\<close> and leaves the directory as it is for a result
  that carries an error; and in a run of any strategy, a file of the directory that is
  new or changed bears the name of a success of the batch, so that no failure produced
  it.
\<close>

theorem failure_outcome_writes_no_file:
    "(error r \<noteq> None \<longrightarrow> save_references e r d = (Inr None, d)) \<and>
     (\<forall>res d' out' k. run_sequential e titles (d, out) = (res, (d', out')) \<and> d' k \<noteq> d k \<longrightarrow>
        (\<exists>t\<in>set titles. \<exists>s. fetch_page_references e t = Inr s \<and> error s = None \<and>
           k = safe_filename (title s) @ py ''.txt'')) \<and>
     (\<forall>res d' out' k.
        run_threads e titles mw started completed (d, out) = (res, (d', out')) \<and> d' k \<noteq> d k \<longrightarrow>
        (\<exists>t\<in>set titles. \<exists>s. fetch_page_references e t = Inr s \<and> error s = None \<and>
           k = safe_filename (title s) @ py ''.txt'')) \<and>
     (\<forall>res d' out' k.
        run_processes e titles mw started completed (d, out) = (res, (d', out')) \<and> d' k \<noteq> d k \<longrightarrow>
        (\<exists>t\<in>set titles. \<exists>s. fetch_page_references e t = Inr s \<and> error s = None \<and>
           k = safe_filename (title s) @ py ''.txt''))"
proof (intro conjI allI impI)
  assume "error r \<noteq> None"
  then show "save_references e r d = (Inr None, d)" by (rule save_references_failure)
next
  fix res d' out' k
  assume a: "run_sequential e titles (d, out) = (res, (d', out')) \<and> d' k \<noteq> d k"
  then have "seq_loop e titles 0 0 (d, out) = (res, (d', out'))"
    by (simp add: run_sequential_def)
  from seq_loop_dir [OF this] obtain ps where
    ps: "set ps \<subseteq> set titles" "d' = fold (touch e) ps d" by blast
  with a have "fold (touch e) ps d k \<noteq> d k" by simp
  from changed_by_success [OF this ps(1)]
  show "\<exists>t\<in>set titles. \<exists>s. fetch_page_references e t = Inr s \<and> error s = None \<and>
      k = safe_filename (title s) @ py ''.txt''" .
next
  fix res d' out' k
  assume a: "run_threads e titles mw started completed (d, out) = (res, (d', out')) \<and>
      d' k \<noteq> d k"
  then have "run_pool (py ''thread error: '') e titles mw started completed (d, out) =
      (res, (d', out'))"
    by (simp add: run_threads_def)
  from pool_changed_by_success [OF this] a
  show "\<exists>t\<in>set titles. \<exists>s. fetch_page_references e t = Inr s \<and> error s = None \<and>
      k = safe_filename (title s) @ py ''.txt''" by blast
next
  fix res d' out' k
  assume a: "run_processes e titles mw started completed (d, out) = (res, (d', out')) \<and>
      d' k \<noteq> d k"
  then have "run_pool (py ''process error: '') e titles mw started completed (d, out) =
      (res, (d', out'))"
    by (simp add: run_processes_def)
  from pool_changed_by_success [OF this] a
  show "\<exists>t\<in>set titles. \<exists>s. fetch_page_references e t = Inr s \<and> error s = None \<and>
      k = safe_filename (title s) @ py ''.txt''" by blast
qed

theorem failure_outcome_writes_no_file_witness:
  "is_schedule batch in_order \<and>
   save_references stub
     \<lparr>title = py ''B'', references = [], error = Some (py ''Timeout: timed out'')\<rparr> Map.empty =
     (Inr None, Map.empty) \<and>
   run_threads stub batch None in_order c_first (Map.empty, []) =
     (Inr (2, 1),
      (expected_dir,
       [wrote_line (py ''C.txt''), wrote_line (py ''A.txt''),
        skipped_line (py ''B'') (py ''Timeout: timed out'')])) \<and>
   expected_dir (py ''A.txt'') \<noteq> Map.empty (py ''A.txt'') \<and>
   (\<exists>t\<in>set batch. \<exists>s. fetch_page_references stub t = Inr s \<and> error s = None \<and>
      py ''A.txt'' = safe_filename (title s) @ py ''.txt'')"
proof -
  have c: "expected_dir (py ''A.txt'') \<noteq> Map.empty (py ''A.txt'')"
    using titles_distinct by (simp add: expected_dir_def)
  note f = failure_outcome_writes_no_file [of
      "\<lparr>title = py ''B'', references = [], error = Some (py ''Timeout: timed out'')\<rparr>"
      stub Map.empty batch "[]" None in_order c_first]
  have "error \<lparr>title = py ''B'', references = [], error = Some (py ''Timeout: timed out'')\<rparr>
      \<noteq> None" by simp
  with f have s: "save_references stub
      \<lparr>title = py ''B'', references = [], error = Some (py ''Timeout: timed out'')\<rparr> Map.empty =
      (Inr None, Map.empty)"
    by blast
  from f have t: "\<forall>res d' out' k.
        run_threads stub batch None in_order c_first (Map.empty, []) = (res, (d', out')) \<and>
        d' k \<noteq> Map.empty k \<longrightarrow>
        (\<exists>t\<in>set batch. \<exists>s. fetch_page_references stub t = Inr s \<and> error s = None \<and>
           k = safe_filename (title s) @ py ''.txt'')"
    by blast
  from t stub_threads c
  have "\<exists>t\<in>set batch. \<exists>s. fetch_page_references stub t = Inr s \<and> error s = None \<and>
      py ''A.txt'' = safe_filename (title s) @ py ''.txt''"
    by blast
  with schedules_of_batch(1) s stub_threads c show ?thesis by blast
qed





end
